theory Spec2Isabelle
  imports Complex_Main "HOL-Library.Option_ord" "HOL-Library.Log_Nat"
begin

section \<open>Flight reliability dashboard: loader and query engine\<close>

text \<open>
  The development embeds \<^verbatim>\<open>src/app/streamlit/app.py\<close>. A Polars data frame is a list of
  rows, every column of the CSV being a field of the row. Polars columns are nullable: a
  cell is an \<open>option\<close>, \<open>None\<close> being the null of Polars. Integer columns are
  \<^verbatim>\<open>Int64\<close>; the Python function works on unbounded integers and every integer operation
  below shrinks its argument, so they are modelled as \<open>int\<close>. A \<^verbatim>\<open>Float64\<close> (a Python
  \<^verbatim>\<open>float\<close>) is the rational number it stands for, and every floating-point operation is
  the exact operation followed by the rounding to the nearest \<^verbatim>\<open>Float64\<close>.

  Reading the file (\<^verbatim>\<open>pl.read_csv\<close>) is input and output: \<^verbatim>\<open>load_data\<close> starts from the
  cells that were read. The columns the functions below never look at (\<^verbatim>\<open>FlightDate\<close>)
  are left out. The cancellation flag is a boolean cell, whose cast to \<^verbatim>\<open>Int8\<close> is 0 or 1.
\<close>

subsection \<open>Rows of the source table and of the normalised table\<close>

record flight_record =
  CRSDepTime :: "int option"
  DepTime :: "int option"
  CRSArrTime :: "int option"
  ArrTime :: "int option"
  Origin :: "string option"
  Dest :: "string option"
  Operating_Airline :: "string option"
  Flight_Number_Operating_Airline :: "int option"
  ArrDelayMinutes :: "int option"
  Cancelled :: "bool option"

record normalized_record = flight_record +
  CRSDepMin :: "int option"
  DepMin :: "int option"
  CRSArrMin :: "int option"
  ArrMin :: "int option"
  OnTime :: "int option"
  CancelledFlag :: "int option"
  DepHour :: "int option"

subsection \<open>Column expressions of Polars\<close>

text \<open>\<^verbatim>\<open>Expr.map_elements\<close> skips nulls: the Python function is called on present cells only.\<close>

definition map_elements :: "('a \<Rightarrow> 'b) \<Rightarrow> 'a option \<Rightarrow> 'b option" where
  "map_elements f c = (case c of None \<Rightarrow> None | Some v \<Rightarrow> Some (f v))"

text \<open>A comparison with a null cell is null.\<close>

definition pl_le :: "int option \<Rightarrow> int \<Rightarrow> bool option" where
  "pl_le c k = (case c of None \<Rightarrow> None | Some v \<Rightarrow> Some (v \<le> k))"

definition pl_eq :: "'a option \<Rightarrow> 'a \<Rightarrow> bool option" where
  "pl_eq c k = (case c of None \<Rightarrow> None | Some v \<Rightarrow> Some (v = k))"

text \<open>The conjunction \<^verbatim>\<open>&\<close> of two boolean columns is Kleene's: false wins over null.\<close>

fun pl_and :: "bool option \<Rightarrow> bool option \<Rightarrow> bool option" where
  "pl_and (Some False) _ = Some False"
| "pl_and _ (Some False) = Some False"
| "pl_and (Some True) (Some True) = Some True"
| "pl_and _ _ = None"

text \<open>\<^verbatim>\<open>cast(pl.Int8)\<close> of a boolean cell: true is 1, false is 0, null stays null.\<close>

definition cast_Int8 :: "bool option \<Rightarrow> int option" where
  "cast_Int8 c = (case c of None \<Rightarrow> None | Some b \<Rightarrow> Some (if b then 1 else 0))"

text \<open>Floor division of an integer column by a constant.\<close>

definition pl_floordiv :: "int option \<Rightarrow> int \<Rightarrow> int option" where
  "pl_floordiv c k = (case c of None \<Rightarrow> None | Some v \<Rightarrow> Some (v div k))"

text \<open>\<^verbatim>\<open>DataFrame.filter\<close> keeps the rows on which the predicate is true; a null is dropped.\<close>

definition pl_filter :: "('r \<Rightarrow> bool option) \<Rightarrow> 'r list \<Rightarrow> 'r list" where
  "pl_filter p df = filter (\<lambda>r. p r = Some True) df"

subsection \<open>\<^verbatim>\<open>load_data\<close>\<close>

text \<open>Python's \<^verbatim>\<open>//\<close> and \<^verbatim>\<open>%\<close> round towards minus infinity, as \<open>div\<close> and \<open>mod\<close> on \<open>int\<close> do.\<close>

definition hhmm_to_minutes :: "int \<Rightarrow> int" where
  "hhmm_to_minutes s = (s div 100) * 60 + (s mod 100)"

text \<open>
  The two \<^verbatim>\<open>with_columns\<close> calls of \<^verbatim>\<open>load_data\<close> on one row: the first adds the four
  minute columns, \<^verbatim>\<open>OnTime\<close> and \<^verbatim>\<open>CancelledFlag\<close>, the second adds \<^verbatim>\<open>DepHour\<close>
  from the new \<^verbatim>\<open>CRSDepMin\<close>.
\<close>

definition with_columns :: "flight_record \<Rightarrow> normalized_record" where
  "with_columns r =
     (let crs_dep_min = map_elements hhmm_to_minutes (CRSDepTime r) in
      flight_record.extend r
        (normalized_record.fields
           crs_dep_min
           (map_elements hhmm_to_minutes (DepTime r))
           (map_elements hhmm_to_minutes (CRSArrTime r))
           (map_elements hhmm_to_minutes (ArrTime r))
           (cast_Int8 (pl_le (ArrDelayMinutes r) 15))
           (cast_Int8 (Cancelled r))
           (pl_floordiv crs_dep_min 60)))"

text \<open>
  \<^verbatim>\<open>with_columns\<close> works on whole columns: every row is extended, none is moved. The
  reader infers the type of a column from its cells: a column without any present cell (in
  a table without rows, every column) is read as a column of strings, and the comparison
  of the string column \<^verbatim>\<open>ArrDelayMinutes\<close> with 15 raises \<^verbatim>\<open>ComputeError\<close>.
\<close>

datatype error = ComputeError

definition load_data :: "flight_record list \<Rightarrow> error + normalized_record list" where
  "load_data df =
     (if list_all (\<lambda>r. ArrDelayMinutes r = None) df then Inl ComputeError
      else Inr (map with_columns df))"

subsection \<open>Strings of integers\<close>

text \<open>
  \<^verbatim>\<open>cast(pl.Utf8)\<close> of an integer cell is its decimal numeral, with a minus sign when
  negative and without leading zeros; a null stays null.
\<close>

definition digit_char :: "nat \<Rightarrow> char" where
  "digit_char d = char_of (48 + d)"

function decimal :: "nat \<Rightarrow> string" where
  "decimal k = (if k < 10 then [digit_char k] else decimal (k div 10) @ [digit_char (k mod 10)])"
  by pat_completeness auto
termination
  by (relation "measure (\<lambda>k. k)") auto

declare decimal.simps [simp del]

definition int_to_str :: "int \<Rightarrow> string" where
  "int_to_str i = (if i < 0 then CHR ''-'' # decimal (nat (- i)) else decimal (nat i))"

definition cast_Utf8 :: "int option \<Rightarrow> string option" where
  "cast_Utf8 c = (case c of None \<Rightarrow> None | Some v \<Rightarrow> Some (int_to_str v))"

subsection \<open>\<^verbatim>\<open>filter_df\<close>\<close>

text \<open>
  \<^verbatim>\<open>filter_df\<close> reads five globals set by the sidebar: the mode and the four selections.
  They are the fields of one record, passed to the function.
\<close>

record sidebar =
  mode :: string
  orig :: string
  dest :: string
  carrier :: string
  flight :: string

definition filter_df :: "sidebar \<Rightarrow> normalized_record list \<Rightarrow> normalized_record list" where
  "filter_df sb df =
     (if mode sb = ''airport'' then
        pl_filter (\<lambda>r. pl_eq (Origin r) (orig sb)) df
      else if mode sb = ''route'' then
        pl_filter (\<lambda>r. pl_and (pl_eq (Origin r) (orig sb)) (pl_eq (Dest r) (dest sb))) df
      else if mode sb = ''airline_at_airport'' then
        pl_filter (\<lambda>r. pl_and (pl_eq (Origin r) (orig sb))
                              (pl_eq (Operating_Airline r) (carrier sb))) df
      else if mode sb = ''flight'' then
        (let f_car = take 2 (flight sb);
             f_no = drop 2 (flight sb)
         in pl_filter (\<lambda>r. pl_and (pl_eq (Operating_Airline r) f_car)
                                  (pl_eq (cast_Utf8 (Flight_Number_Operating_Airline r)) f_no)) df)
      else df)"

subsection \<open>Floating-point numbers\<close>

text \<open>
  The nearest integer of a rational, a tie going to the even neighbour, and the one a tie
  of which goes away from zero.
\<close>

definition round_half_even :: "rat \<Rightarrow> int" where
  "round_half_even x =
     (let f = \<lfloor>x\<rfloor>; d = x - of_int f
      in if d < 1 / 2 then f
         else if 1 / 2 < d then f + 1
         else if even f then f else f + 1)"

definition round_half_away :: "rat \<Rightarrow> int" where
  "round_half_away x = (if 0 \<le> x then \<lfloor>x + 1 / 2\<rfloor> else - \<lfloor>- x + 1 / 2\<rfloor>)"

text \<open>
  The binary exponent of a rational \<open>x\<close> other than 0: the \<open>e\<close> with
  \<open>2 ^ e \<le> \<bar>x\<bar> < 2 ^ (e + 1)\<close>, found from the bit lengths of numerator and denominator.
\<close>

definition expo :: "rat \<Rightarrow> int" where
  "expo x =
     (let (p, q) = quotient_of \<bar>x\<bar>; d = bitlen p - bitlen q
      in if power_int 2 d \<le> \<bar>x\<bar> then d else d - 1)"

text \<open>
  The \<^verbatim>\<open>Float64\<close> nearest to a rational (IEEE 754 binary64, round to nearest, ties to
  even): a multiple of \<open>2 ^ (e - 52)\<close>, a significand of 53 bits. The exponent is not bounded:
  the numbers of the script (quotients and products of 64-bit integers) stay inside the
  normal range of the format, where nothing overflows and nothing is subnormal.
\<close>

definition f64 :: "rat \<Rightarrow> rat" where
  "f64 x =
     (if x = 0 then 0
      else (let u = power_int 2 (expo x - 52) in of_int (round_half_even (x / u)) * u))"

subsection \<open>Aggregates of a column\<close>

definition drop_nulls :: "'a option list \<Rightarrow> 'a list" where
  "drop_nulls col = List.map_filter (\<lambda>c. c) col"

text \<open>\<^verbatim>\<open>Series.sum\<close> adds the present cells (0 when there is none), as an integer.\<close>

definition series_sum :: "int option list \<Rightarrow> int" where
  "series_sum col = sum_list (drop_nulls col)"

text \<open>
  \<^verbatim>\<open>mean\<close> is null when no cell is present. Otherwise it casts the present cells to
  \<^verbatim>\<open>Float64\<close>, adds them in floating point and divides by their number. The order in
  which Polars adds the cells is its own; here they are added from first to last. Every
  order gives the same sum, the exact one, when the absolute values of the cells add up to
  less than \<open>2 ^ 53\<close>: the statements about means below are made for that range.
\<close>

definition f64_sum :: "int list \<Rightarrow> rat" where
  "f64_sum vs = foldl (\<lambda>acc v. f64 (acc + f64 (of_int v))) 0 vs"

definition series_mean :: "int option list \<Rightarrow> rat option" where
  "series_mean col =
     (let vs = drop_nulls col
      in if vs = [] then None else Some (f64 (f64_sum vs / f64 (of_nat (length vs)))))"

subsection \<open>Rounding to a number of decimals\<close>

text \<open>
  Python's \<^verbatim>\<open>round(x, ndigits)\<close> of a float takes the multiple of \<open>1 / 10 ^ ndigits\<close> nearest to the
  exact value of \<open>x\<close>, the even one on a tie, and returns the \<^verbatim>\<open>Float64\<close> nearest to it.
\<close>

definition py_round :: "rat \<Rightarrow> nat \<Rightarrow> rat" where
  "py_round x ndigits = f64 (of_int (round_half_even (x * 10 ^ ndigits)) / 10 ^ ndigits)"

text \<open>
  \<^verbatim>\<open>Expr.round(decimals)\<close> of Polars multiplies by \<open>10 ^ decimals\<close> in floating point, rounds to an
  integer and divides by \<open>10 ^ decimals\<close> in floating point. A tie goes to the even integer or away
  from zero: which one is the default has changed between the releases of Polars, so the
  mode is an argument.
\<close>

datatype round_mode = half_to_even | half_away_from_zero

fun round_ties :: "round_mode \<Rightarrow> rat \<Rightarrow> int" where
  "round_ties half_to_even x = round_half_even x"
| "round_ties half_away_from_zero x = round_half_away x"

definition pl_round :: "round_mode \<Rightarrow> rat \<Rightarrow> nat \<Rightarrow> rat" where
  "pl_round rm x decimals =
     f64 (of_int (round_ties rm (f64 (x * 10 ^ decimals))) / 10 ^ decimals)"

subsection \<open>\<^verbatim>\<open>compute_metrics\<close>\<close>

record metrics =
  m_n :: nat
  m_on_time_pct :: "rat option"
  m_avg_delay :: "rat option"
  m_cancel_rate :: "rat option"

text \<open>
  The division of two Python integers is the \<^verbatim>\<open>float\<close> nearest to the quotient; the
  product with 100 is a floating-point product.
\<close>

definition compute_metrics :: "normalized_record list \<Rightarrow> metrics" where
  "compute_metrics fdf =
     (let n = length fdf in
      if n = 0 then
        \<lparr>m_n = 0, m_on_time_pct = None, m_avg_delay = None, m_cancel_rate = None\<rparr>
      else
        (let on_time = series_sum (map OnTime fdf);
             cancels = series_sum (map CancelledFlag fdf);
             avg_delay = series_mean (map ArrDelayMinutes fdf)
         in \<lparr>m_n = n,
              m_on_time_pct = Some (py_round (f64 (f64 (of_int on_time / of_nat n) * 100)) 1),
              m_avg_delay = (case avg_delay of None \<Rightarrow> None | Some a \<Rightarrow> Some (py_round a 1)),
              m_cancel_rate = Some (py_round (f64 (f64 (of_int cancels / of_nat n) * 100)) 1)\<rparr>))"

subsection \<open>\<^verbatim>\<open>hour_stats\<close>\<close>

text \<open>
  \<^verbatim>\<open>group_by("DepHour")\<close> makes one group per distinct cell of the column, the null cell
  included; \<^verbatim>\<open>sort("DepHour")\<close> then orders the groups by their key, the null first (the
  order on \<open>option\<close> puts \<open>None\<close> below every \<open>Some\<close>). The order in which
  \<^verbatim>\<open>group_by\<close> emits the groups is therefore irrelevant. \<^verbatim>\<open>on_time_pct\<close> is rounded,
  \<^verbatim>\<open>avg_arr_delay\<close> is the mean as it is.
\<close>

record hour_row =
  h_DepHour :: "int option"
  flights_n :: nat
  on_time_rate :: "rat option"
  avg_arr_delay :: "rat option"
  h_on_time_pct :: "rat option"

definition group_rows :: "int option \<Rightarrow> normalized_record list \<Rightarrow> normalized_record list" where
  "group_rows k fdf = filter (\<lambda>r. DepHour r = k) fdf"

definition agg :: "round_mode \<Rightarrow> int option \<Rightarrow> normalized_record list \<Rightarrow> hour_row" where
  "agg rm k g =
     (let rate = series_mean (map OnTime g)
      in \<lparr>h_DepHour = k,
           flights_n = length g,
           on_time_rate = rate,
           avg_arr_delay = series_mean (map ArrDelayMinutes g),
           h_on_time_pct = (case rate of None \<Rightarrow> None | Some x \<Rightarrow> Some (pl_round rm (f64 (x * 100)) 1))\<rparr>)"

definition hour_stats :: "round_mode \<Rightarrow> normalized_record list \<Rightarrow> hour_row list" where
  "hour_stats rm fdf =
     map (\<lambda>k. agg rm k (group_rows k fdf)) (sort (remdups (map DepHour fdf)))"

subsection \<open>The statements of the specification\<close>

text \<open>The minute of the day of a clock value, as the specification writes it.\<close>

definition spec_minutes :: "int option \<Rightarrow> int option" where
  "spec_minutes clock =
     (case clock of None \<Rightarrow> None | Some s \<Rightarrow> Some ((s div 100) * 60 + s mod 100))"

text \<open>The arrival delays that are present in a subset, in row order.\<close>

definition present_delays :: "normalized_record list \<Rightarrow> int list" where
  "present_delays fdf = map the (filter (\<lambda>c. c \<noteq> None) (map ArrDelayMinutes fdf))"

text \<open>
  Decimal numerals, read from the string: a digit is one of the characters 0 to 9, the
  value of a string of digits is read from left to right, and a numeral is canonical when
  it has a digit and no leading zero. A string denotes an integer \<open>k\<close> when it is the
  canonical numeral of \<open>k\<close>, after a minus sign when \<open>k\<close> is negative.
\<close>

definition is_digit :: "char \<Rightarrow> bool" where
  "is_digit c \<longleftrightarrow> c \<in> set ''0123456789''"

definition digit_value :: "char \<Rightarrow> nat" where
  "digit_value c = of_char c - of_char CHR ''0''"

definition numeral_value :: "string \<Rightarrow> nat" where
  "numeral_value s = foldl (\<lambda>a c. 10 * a + digit_value c) 0 s"

definition canonical :: "string \<Rightarrow> bool" where
  "canonical s \<longleftrightarrow> s \<noteq> [] \<and> list_all is_digit s \<and> (length s = 1 \<or> hd s \<noteq> CHR ''0'')"

definition denotes :: "string \<Rightarrow> int \<Rightarrow> bool" where
  "denotes s k \<longleftrightarrow>
     (case s of
        [] \<Rightarrow> False
      | c # t \<Rightarrow>
          if c = CHR ''-'' then k < 0 \<and> canonical t \<and> int (numeral_value t) = - k
          else 0 \<le> k \<and> canonical s \<and> int (numeral_value s) = k)"

subsection \<open>Sample rows\<close>

text \<open>
  A row of the sample: a flight from JFK to LAX with the given scheduled departure clock
  value, airline, flight number, arrival delay and cancellation flag.
\<close>

definition sample_row ::
  "int option \<Rightarrow> string \<Rightarrow> int \<Rightarrow> int option \<Rightarrow> bool \<Rightarrow> flight_record" where
  "sample_row crs_dep airline number delay cancelled =
     \<lparr>CRSDepTime = crs_dep, DepTime = crs_dep, CRSArrTime = Some 800, ArrTime = None,
      Origin = Some ''JFK'', Dest = Some ''LAX'', Operating_Airline = Some airline,
      Flight_Number_Operating_Airline = Some number, ArrDelayMinutes = delay,
      Cancelled = Some cancelled\<rparr>"

text \<open>Four flights AA101 with delays 5, 20, missing, 0, the third one cancelled.\<close>

definition sample_table :: "flight_record list" where
  "sample_table =
     [sample_row (Some 1515) ''AA'' 101 (Some 5) False,
      sample_row (Some 800) ''AA'' 101 (Some 20) False,
      sample_row (Some 1559) ''AA'' 101 None True,
      sample_row (Some 805) ''AA'' 101 (Some 0) False]"

text \<open>Three flights of the 8 o'clock hour whose mean delay, one third, has no finite decimal.\<close>

definition thirds_table :: "flight_record list" where
  "thirds_table =
     [sample_row (Some 800) ''AA'' 101 (Some 0) False,
      sample_row (Some 815) ''AA'' 102 (Some 0) False,
      sample_row (Some 830) ''AA'' 103 (Some 1) False]"

text \<open>The same three flights and a fourth one of that hour without an arrival delay.\<close>

definition mixed_table :: "flight_record list" where
  "mixed_table = thirds_table @ [sample_row (Some 845) ''AA'' 104 None True]"

text \<open>One flight whose delay, \<open>2 ^ 53 + 1\<close> minutes, is no \<^verbatim>\<open>Float64\<close>.\<close>

definition huge_table :: "flight_record list" where
  "huge_table = [sample_row (Some 800) ''AA'' 101 (Some 9007199254740993) False]"

text \<open>Nineteen flights on time to the minute and one a minute late: a mean of 0.05.\<close>

definition twentieth_table :: "flight_record list" where
  "twentieth_table =
     replicate 19 (sample_row (Some 800) ''AA'' 101 (Some 0) False) @
     [sample_row (Some 800) ''AA'' 101 (Some 1) False]"


definition sample_sidebar :: "string \<Rightarrow> sidebar" where
  "sample_sidebar m =
     \<lparr>mode = m, orig = ''JFK'', dest = ''LAX'', carrier = ''AA'', flight = ''AA100''\<rparr>"

section \<open>Auxiliary facts\<close>

lemmas sample_defs = sample_row_def sample_table_def sample_sidebar_def

lemmas with_columns_unfold =
  with_columns_def flight_record.extend_def normalized_record.fields_def Let_def


lemma with_columns_minutes:
  "CRSDepMin (with_columns r) = map_elements hhmm_to_minutes (CRSDepTime r)"
  "DepMin (with_columns r) = map_elements hhmm_to_minutes (DepTime r)"
  "CRSArrMin (with_columns r) = map_elements hhmm_to_minutes (CRSArrTime r)"
  "ArrMin (with_columns r) = map_elements hhmm_to_minutes (ArrTime r)"
  by (simp_all add: with_columns_unfold)

lemma with_columns_OnTime:
  "OnTime (with_columns r) = cast_Int8 (pl_le (ArrDelayMinutes r) 15)"
  by (simp add: with_columns_unfold)

lemma with_columns_DepHour:
  "DepHour (with_columns r) = pl_floordiv (CRSDepMin (with_columns r)) 60"
  by (simp add: with_columns_unfold)

lemma with_columns_raw:
  "ArrDelayMinutes (with_columns r) = ArrDelayMinutes r"
  "CRSDepTime (with_columns r) = CRSDepTime r"
  "Operating_Airline (with_columns r) = Operating_Airline r"
  "Flight_Number_Operating_Airline (with_columns r) = Flight_Number_Operating_Airline r"
  by (simp_all add: with_columns_unfold)

lemma round_half_even_near: "\<bar>of_int (round_half_even x) - x\<bar> \<le> 1 / 2"
proof -
  have "of_int \<lfloor>x\<rfloor> \<le> x" "x < of_int \<lfloor>x\<rfloor> + 1" by linarith+
  then show ?thesis
    by (auto simp: round_half_even_def Let_def abs_le_iff)
qed

lemma round_half_away_near: "\<bar>of_int (round_half_away x) - x\<bar> \<le> 1 / 2"
proof (cases "0 \<le> x")
  case True
  have "of_int \<lfloor>x + 1 / 2\<rfloor> \<le> x + 1 / 2" "x + 1 / 2 < of_int \<lfloor>x + 1 / 2\<rfloor> + 1"
    by linarith+
  then have "\<bar>of_int \<lfloor>x + 1 / 2\<rfloor> - x\<bar> \<le> 1 / 2"
    by linarith
  with True show ?thesis
    by (simp add: round_half_away_def)
next
  case False
  have "of_int \<lfloor>- x + 1 / 2\<rfloor> \<le> - x + 1 / 2" "- x + 1 / 2 < of_int \<lfloor>- x + 1 / 2\<rfloor> + 1"
    by linarith+
  then have "\<bar>- of_int \<lfloor>- x + 1 / 2\<rfloor> - x\<bar> \<le> 1 / 2"
    by linarith
  with False show ?thesis
    by (simp add: round_half_away_def)
qed

lemma round_ties_near: "\<bar>of_int (round_ties m x) - x\<bar> \<le> 1 / 2"
  using round_half_even_near [of x] round_half_away_near [of x] by (cases m) simp_all

lemma round_half_even_of_int [simp]: "round_half_even (of_int i) = i"
  by (simp add: round_half_even_def)

lemma power_int_2_pos: "(0::rat) < power_int 2 k"
  by simp

lemma power_int_2_nat: "0 \<le> k \<Longrightarrow> (power_int 2 k :: rat) = 2 ^ nat k"
  by (simp add: power_int_def)

lemma expo_bounds:
  assumes "x \<noteq> 0"
  shows "power_int 2 (expo x) \<le> \<bar>x\<bar> \<and> \<bar>x\<bar> < power_int 2 (expo x + 1)"
proof -
  obtain p q where pq: "quotient_of \<bar>x\<bar> = (p, q)"
    by (cases "quotient_of \<bar>x\<bar>")
  then have q: "0 < q" and x: "\<bar>x\<bar> = of_int p / of_int q"
    by (simp_all add: quotient_of_denom_pos quotient_of_div)
  from assms have "0 < \<bar>x\<bar>"
    by simp
  with x q have p: "0 < p"
    by (simp add: zero_less_divide_iff)
  define d where "d = bitlen p - bitlen q"
  have bp: "1 \<le> bitlen p" and bq: "1 \<le> bitlen q"
    using p q by (simp_all add: bitlen_alt_def)
  have "(of_int (2 ^ nat (bitlen p - 1)) :: rat) \<le> of_int p"
    using bitlen_bounds [OF p] by (simp only: of_int_le_iff)
  with bp have p1: "(power_int 2 (bitlen p - 1) :: rat) \<le> of_int p"
    by (simp add: power_int_2_nat)
  have "(of_int p :: rat) < of_int (2 ^ nat (bitlen p))"
    using bitlen_bounds [OF p] by (simp only: of_int_less_iff)
  with bp have p2: "(of_int p :: rat) < power_int 2 (bitlen p)"
    by (simp add: power_int_2_nat)
  have "(of_int (2 ^ nat (bitlen q - 1)) :: rat) \<le> of_int q"
    using bitlen_bounds [OF q] by (simp only: of_int_le_iff)
  with bq have q1: "(power_int 2 (bitlen q - 1) :: rat) \<le> of_int q"
    by (simp add: power_int_2_nat)
  have "(of_int q :: rat) < of_int (2 ^ nat (bitlen q))"
    using bitlen_bounds [OF q] by (simp only: of_int_less_iff)
  with bq have q2: "(of_int q :: rat) < power_int 2 (bitlen q)"
    by (simp add: power_int_2_nat)
  have up: "\<bar>x\<bar> < power_int 2 (d + 1)"
  proof -
    have "power_int 2 (d + 1) = (power_int 2 (bitlen p) / power_int 2 (bitlen q - 1) :: rat)"
      unfolding d_def by (simp add: power_int_diff [symmetric] algebra_simps)
    moreover have "of_int p / of_int q < (power_int 2 (bitlen p) / power_int 2 (bitlen q - 1) :: rat)"
      using p q p2 q1 power_int_2_pos [of "bitlen q - 1"]
      by (intro frac_less) simp_all
    ultimately show ?thesis
      by (simp add: x)
  qed
  have lo: "power_int 2 (d - 1) < \<bar>x\<bar>"
  proof -
    have "power_int 2 (d - 1) = (power_int 2 (bitlen p - 1) / power_int 2 (bitlen q) :: rat)"
      unfolding d_def by (simp add: power_int_diff [symmetric] algebra_simps)
    moreover have "(power_int 2 (bitlen p - 1) / power_int 2 (bitlen q) :: rat) < of_int p / of_int q"
      using p q p1 q2 power_int_2_pos [of "bitlen p - 1"]
      by (intro frac_less2) simp_all
    ultimately show ?thesis
      by (simp add: x)
  qed
  show ?thesis
  proof (cases "power_int 2 d \<le> \<bar>x\<bar>")
    case True
    then have "expo x = d"
      by (simp add: expo_def pq d_def)
    with True up show ?thesis by simp
  next
    case False
    then have "expo x = d - 1"
      by (simp add: expo_def pq d_def)
    with False lo show ?thesis by simp
  qed
qed


lemma f64_error: "\<bar>f64 x - x\<bar> \<le> \<bar>x\<bar> / 2 ^ 53"
proof (cases "x = 0")
  case True
  then show ?thesis by (simp add: f64_def)
next
  case False
  define u :: rat where "u = power_int 2 (expo x - 52)"
  define k where "k = round_half_even (x / u)"
  have u: "0 < u"
    by (simp add: u_def)
  have fx: "f64 x = of_int k * u"
    using False by (simp add: f64_def Let_def u_def k_def)
  have "\<bar>of_int k - x / u\<bar> \<le> 1 / 2"
    unfolding k_def by (rule round_half_even_near)
  then have "\<bar>of_int k - x / u\<bar> * u \<le> 1 / 2 * u"
    using u by (intro mult_right_mono) simp_all
  moreover have "\<bar>of_int k - x / u\<bar> * u = \<bar>of_int k * u - x\<bar>"
  proof -
    have "\<bar>of_int k - x / u\<bar> * u = \<bar>(of_int k - x / u) * u\<bar>"
      using u by (simp add: abs_mult)
    also have "(of_int k - x / u) * u = of_int k * u - x"
      using u by (simp add: left_diff_distrib)
    finally show ?thesis .
  qed
  ultimately have 1: "\<bar>f64 x - x\<bar> \<le> u / 2"
    by (simp add: fx)
  have "u = power_int 2 (expo x) / 2 ^ 52"
    unfolding u_def by (simp add: power_int_diff)
  with expo_bounds [OF False] have "u \<le> \<bar>x\<bar> / 2 ^ 52"
    by (simp add: divide_right_mono)
  with 1 show ?thesis
    by simp
qed

lemma f64_error_bound:
  assumes "\<bar>x\<bar> \<le> B"
  shows "\<bar>f64 x - x\<bar> \<le> B / 2 ^ 53"
proof -
  from assms have "\<bar>x\<bar> / 2 ^ 53 \<le> B / 2 ^ 53"
    by (simp add: divide_right_mono)
  with f64_error [of x] show ?thesis
    by linarith
qed

lemma expo_less:
  assumes "x \<noteq> 0" and "\<bar>x\<bar> < power_int 2 m"
  shows "expo x < m"
proof (rule ccontr)
  assume "\<not> expo x < m"
  then have "(power_int 2 m :: rat) \<le> power_int 2 (expo x)"
    by (intro power_int_increasing) simp_all
  with expo_bounds [OF assms(1)] assms(2) show False
    by linarith
qed

lemma f64_of_int:
  assumes "\<bar>i\<bar> < 2 ^ 53"
  shows "f64 (of_int i) = of_int i"
proof (cases "i = 0")
  case True
  then show ?thesis by (simp add: f64_def)
next
  case False
  define e where "e = expo (of_int i)"
  have "(of_int \<bar>i\<bar> :: rat) < of_int (2 ^ 53)"
    using assms by (simp only: of_int_less_iff)
  then have "\<bar>of_int i :: rat\<bar> < power_int 2 53"
    by simp
  with False have "e < 53"
    unfolding e_def by (intro expo_less) simp_all
  then have n: "0 \<le> 52 - e"
    by simp
  have u: "(power_int 2 (e - 52) :: rat) = 1 / 2 ^ nat (52 - e)"
    using n by (simp add: power_int_def field_simps)
  have "of_int i / (power_int 2 (e - 52) :: rat) = of_int (i * 2 ^ nat (52 - e))"
    by (simp add: u)
  then have "round_half_even (of_int i / power_int 2 (e - 52)) = i * 2 ^ nat (52 - e)"
    by (simp only: round_half_even_of_int)
  then show ?thesis
    using False by (simp add: f64_def Let_def e_def [symmetric] u)
qed

lemma f64_of_nat:
  assumes "n < 2 ^ 53"
  shows "f64 (of_nat n) = of_nat n"
proof -
  from assms have "int n < int (2 ^ 53)"
    by (simp only: of_nat_less_iff)
  then have "\<bar>int n\<bar> < 2 ^ 53"
    by simp
  from f64_of_int [OF this] show ?thesis
    by simp
qed

lemma f64_fold_exact:
  assumes "\<bar>a\<bar> + sum_list (map abs vs) < 2 ^ 53"
  shows "foldl (\<lambda>acc v. f64 (acc + f64 (of_int v))) (of_int a) vs = of_int (a + sum_list vs)"
  using assms
proof (induction vs arbitrary: a)
  case Nil
  then show ?case by simp
next
  case (Cons v vs)
  from Cons.prems have v: "\<bar>v\<bar> < 2 ^ 53" and av: "\<bar>a + v\<bar> < 2 ^ 53"
    and rest: "\<bar>a + v\<bar> + sum_list (map abs vs) < 2 ^ 53"
    using sum_list_abs [of vs] by simp_all
  have "f64 (of_int a + f64 (of_int v)) = of_int (a + v)"
    using f64_of_int [OF v] f64_of_int [OF av] by simp
  with Cons.IH [OF rest] show ?case
    by (simp add: add.assoc)
qed

lemma f64_sum_exact:
  assumes "sum_list (map abs vs) < 2 ^ 53"
  shows "f64_sum vs = of_int (sum_list vs)"
  using f64_fold_exact [of 0 vs] assms by (simp add: f64_sum_def)

lemma drop_nulls_Nil [simp]: "drop_nulls [] = []"
  by (simp add: drop_nulls_def map_filter_simps)

lemma drop_nulls_Cons [simp]:
  "drop_nulls (c # cs) = (case c of None \<Rightarrow> drop_nulls cs | Some v \<Rightarrow> v # drop_nulls cs)"
  by (simp add: drop_nulls_def map_filter_simps split: option.splits)

lemma drop_nulls_present: "drop_nulls col = map the (filter (\<lambda>c. c \<noteq> None) col)"
  by (induction col) (auto split: option.splits)

lemma pl_filter_subset: "set (pl_filter p df) \<subseteq> set df"
  by (simp add: pl_filter_def)

lemma filter_df_subset: "set (filter_df sb df) \<subseteq> set df"
  by (simp add: filter_df_def Let_def pl_filter_subset)

lemma pl_and_True: "pl_and a b = Some True \<longleftrightarrow> a = Some True \<and> b = Some True"
  by (cases "(a, b)" rule: pl_and.cases) auto

lemma pl_eq_True: "pl_eq c k = Some True \<longleftrightarrow> c = Some k"
  by (simp add: pl_eq_def split: option.splits)

lemma hour_stats_keys: "map h_DepHour (hour_stats rm fdf) = sort (remdups (map DepHour fdf))"
  by (simp add: hour_stats_def agg_def Let_def comp_def)

lemma hour_stats_Nil: "hour_stats rm [] = []"
  by (simp add: hour_stats_def)

lemma hour_stats_row:
  assumes "e \<in> set (hour_stats rm fdf)"
  shows "h_DepHour e \<in> set (map DepHour fdf) \<and>
         e = agg rm (h_DepHour e) (group_rows (h_DepHour e) fdf)"
  using assms by (auto simp: hour_stats_def agg_def Let_def)

lemma load_data_Inr:
  assumes "load_data df = Inr out"
  shows "out = map with_columns df"
  using assms by (simp add: load_data_def split: if_splits)

lemma sample_AA100_empty:
  "filter_df (sample_sidebar ''flight'') (map with_columns sample_table) = []"
  by (simp add: sample_defs filter_df_def pl_filter_def with_columns_unfold
      pl_eq_def cast_Utf8_def int_to_str_def digit_char_def pl_and_True decimal.simps)

lemma hhmm_hour_range:
  assumes "0 \<le> s" "s \<le> 2359"
  shows "0 \<le> hhmm_to_minutes s div 60 \<and> hhmm_to_minutes s div 60 \<le> 23"
proof -
  have "0 \<le> s div 100" "s div 100 \<le> 23" "0 \<le> s mod 100" "s mod 100 < 100"
    using assms by simp_all
  moreover have "s div 100 = 23 \<longrightarrow> s mod 100 \<le> 59"
    using assms by presburger
  ultimately have "0 \<le> hhmm_to_minutes s" "hhmm_to_minutes s < 1440"
    unfolding hhmm_to_minutes_def by linarith+
  then show ?thesis by presburger
qed

lemma with_columns_OnTime_cases:
  "OnTime (with_columns r) =
     (case ArrDelayMinutes r of None \<Rightarrow> None | Some d \<Rightarrow> Some (if d \<le> 15 then 1 else 0))"
  by (simp add: with_columns_OnTime pl_le_def cast_Int8_def split: option.splits)

lemma on_time_column:
  assumes "\<forall>r \<in> set g. OnTime r = Some 0 \<or> OnTime r = Some 1"
  shows "sum_list (drop_nulls (map OnTime g)) = int (length (filter (\<lambda>r. OnTime r = Some 1) g)) \<and>
         length (drop_nulls (map OnTime g)) = length g"
  using assms by (induction g) auto

lemma compute_metrics_n: "m_n (compute_metrics fdf) = length fdf"
  by (simp add: compute_metrics_def Let_def)

lemma is_digit_iff: "is_digit c \<longleftrightarrow> 48 \<le> (of_char c :: nat) \<and> (of_char c :: nat) \<le> 57"
proof -
  have code: "c = d \<longleftrightarrow> (of_char c :: nat) = of_char d" for d
    by simp
  have "is_digit c \<longleftrightarrow>
          (of_char c :: nat) = 48 \<or> (of_char c :: nat) = 49 \<or> (of_char c :: nat) = 50 \<or>
          (of_char c :: nat) = 51 \<or> (of_char c :: nat) = 52 \<or> (of_char c :: nat) = 53 \<or>
          (of_char c :: nat) = 54 \<or> (of_char c :: nat) = 55 \<or> (of_char c :: nat) = 56 \<or>
          (of_char c :: nat) = 57"
    unfolding is_digit_def list.set insert_iff empty_iff
    by (simp add: code [of "CHR ''0''"] code [of "CHR ''1''"] code [of "CHR ''2''"]
        code [of "CHR ''3''"] code [of "CHR ''4''"] code [of "CHR ''5''"] code [of "CHR ''6''"]
        code [of "CHR ''7''"] code [of "CHR ''8''"] code [of "CHR ''9''"] del: of_char_eq_iff)
  also have "\<dots> \<longleftrightarrow> 48 \<le> (of_char c :: nat) \<and> (of_char c :: nat) \<le> 57"
    by presburger
  finally show ?thesis .
qed

lemma digit_char_props:
  assumes "d < 10"
  shows "is_digit (digit_char d)" "digit_value (digit_char d) = d"
  using assms by (simp_all add: is_digit_iff digit_char_def digit_value_def)

lemma digit_char_value:
  assumes "is_digit c"
  shows "digit_char (digit_value c) = c" "digit_value c < 10"
proof -
  from assms have r: "48 \<le> (of_char c :: nat)" "(of_char c :: nat) \<le> 57"
    by (simp_all add: is_digit_iff)
  from r show "digit_value c < 10"
    by (simp add: digit_value_def)
  from r show "digit_char (digit_value c) = c"
    by (simp add: digit_char_def digit_value_def)
qed

lemma digit_char_zero:
  assumes "d < 10"
  shows "digit_char d = CHR ''0'' \<longleftrightarrow> d = 0"
proof
  assume "digit_char d = CHR ''0''"
  then have "digit_value (digit_char d) = digit_value CHR ''0''"
    by simp
  with digit_char_props(2) [OF assms] show "d = 0"
    by (simp add: digit_value_def)
next
  assume "d = 0"
  have "of_char (char_of (48 :: nat)) = (of_char CHR ''0'' :: nat)"
    by simp
  then have "char_of (48 :: nat) = CHR ''0''"
    by (simp only: of_char_eq_iff)
  with \<open>d = 0\<close> show "digit_char d = CHR ''0''"
    by (simp add: digit_char_def)
qed

lemma numeral_value_snoc: "numeral_value (s @ [c]) = 10 * numeral_value s + digit_value c"
  by (simp add: numeral_value_def)

lemma decimal_nonempty: "decimal n \<noteq> []"
  by (subst decimal.simps) simp

lemma decimal_digits: "list_all is_digit (decimal n)"
proof (induction n rule: decimal.induct)
  case (1 k)
  show ?case
  proof (cases "k < 10")
    case True
    then show ?thesis
      by (subst decimal.simps) (simp add: digit_char_props)
  next
    case False
    with 1 show ?thesis
      by (subst decimal.simps) (simp add: digit_char_props)
  qed
qed

lemma decimal_value: "numeral_value (decimal n) = n"
proof (induction n rule: decimal.induct)
  case (1 k)
  show ?case
  proof (cases "k < 10")
    case True
    then show ?thesis
      by (subst decimal.simps) (simp add: numeral_value_def digit_char_props)
  next
    case False
    with 1 show ?thesis
      by (subst decimal.simps) (simp add: numeral_value_snoc digit_char_props)
  qed
qed

lemma decimal_single: "k < 10 \<Longrightarrow> decimal k = [digit_char k]"
  by (subst decimal.simps) simp

lemma decimal_step: "\<not> k < 10 \<Longrightarrow> decimal k = decimal (k div 10) @ [digit_char (k mod 10)]"
  by (subst decimal.simps) simp

lemma decimal_length: "length (decimal k) = 1 \<longleftrightarrow> k < 10"
proof (cases "k < 10")
  case True
  then show ?thesis by (simp add: decimal_single)
next
  case False
  have "0 < length (decimal (k div 10))"
    using decimal_nonempty [of "k div 10"] by simp
  with False show ?thesis
    by (simp add: decimal_step)
qed

lemma decimal_hd: "hd (decimal k) = CHR ''0'' \<longleftrightarrow> k = 0"
proof (induction k rule: decimal.induct)
  case (1 k)
  show ?case
  proof (cases "k < 10")
    case True
    then show ?thesis
      by (simp add: decimal_single digit_char_zero)
  next
    case False
    then have "hd (decimal k) = hd (decimal (k div 10))"
      by (simp add: decimal_step decimal_nonempty)
    with 1 False show ?thesis
      by simp
  qed
qed

lemma decimal_canonical: "canonical (decimal k)"
  unfolding canonical_def
  using decimal_nonempty [of k] decimal_digits [of k] decimal_length [of k] decimal_hd [of k]
  by (cases "k < 10") (auto simp: decimal_single digit_char_zero)

lemma canonical_decimal:
  assumes "canonical s"
  shows "decimal (numeral_value s) = s"
  using assms
proof (induction s rule: rev_induct)
  case Nil
  then show ?case by (simp add: canonical_def)
next
  case (snoc c t)
  from snoc.prems have c: "is_digit c" and t: "list_all is_digit t"
    by (simp_all add: canonical_def)
  show ?case
  proof (cases "t = []")
    case True
    with c show ?thesis
      by (simp add: numeral_value_def decimal_single digit_char_value)
  next
    case False
    with snoc.prems have "hd t \<noteq> CHR ''0''"
      by (auto simp: canonical_def)
    with False t have ct: "canonical t"
      by (simp add: canonical_def)
    from snoc.IH [OF this] have dt: "decimal (numeral_value t) = t" .
    have "numeral_value t \<noteq> 0"
    proof
      assume "numeral_value t = 0"
      with dt have "t = decimal 0"
        by simp
      with \<open>hd t \<noteq> CHR ''0''\<close> show False
        by (simp add: decimal_hd)
    qed
    then have big: "\<not> 10 * numeral_value t + digit_value c < 10"
      by simp
    have "decimal (10 * numeral_value t + digit_value c) = t @ [c]"
      using digit_char_value [OF c]
      by (subst decimal_step [OF big]) (simp add: dt)
    then show ?thesis
      by (simp add: numeral_value_snoc)
  qed
qed

lemma decimal_not_minus: "hd (decimal k) \<noteq> CHR ''-''"
proof -
  from decimal_digits [of k] decimal_nonempty [of k] have "is_digit (hd (decimal k))"
    by (cases "decimal k") simp_all
  then show ?thesis
    by (auto simp: is_digit_def)
qed

lemma int_to_str_denotes: "int_to_str k = s \<longleftrightarrow> denotes s k"
proof (cases "k < 0")
  case True
  show ?thesis
  proof
    assume "int_to_str k = s"
    with True have s: "s = CHR ''-'' # decimal (nat (- k))"
      by (simp add: int_to_str_def)
    with True show "denotes s k"
      by (simp add: denotes_def decimal_canonical decimal_value)
  next
    assume d: "denotes s k"
    with True obtain t where s: "s = CHR ''-'' # t" and t: "canonical t"
      and v: "int (numeral_value t) = - k"
      by (cases s) (auto simp: denotes_def split: if_splits)
    from v have "nat (- k) = numeral_value t"
      by simp
    with canonical_decimal [OF t] True s show "int_to_str k = s"
      by (simp add: int_to_str_def)
  qed
next
  case False
  show ?thesis
  proof
    assume "int_to_str k = s"
    with False have s: "s = decimal (nat k)"
      by (simp add: int_to_str_def)
    obtain c t where ct: "decimal (nat k) = c # t"
      using decimal_nonempty [of "nat k"] by (cases "decimal (nat k)") auto
    with decimal_not_minus [of "nat k"] have "c \<noteq> CHR ''-''"
      by simp
    with False s ct decimal_canonical [of "nat k"] decimal_value [of "nat k"]
    show "denotes s k"
      by (simp add: denotes_def)
  next
    assume d: "denotes s k"
    with False have c: "canonical s" and v: "int (numeral_value s) = k"
      by (cases s; auto simp: denotes_def split: if_splits)+
    from v have "nat k = numeral_value s"
      by auto
    with canonical_decimal [OF c] False show "int_to_str k = s"
      by (simp add: int_to_str_def)
  qed
qed

lemma flight_filter:
  assumes "mode sb = ''flight''"
  shows "filter_df sb df =
           filter (\<lambda>r. Operating_Airline r = Some (take 2 (flight sb)) \<and>
                       (\<exists>k. Flight_Number_Operating_Airline r = Some k \<and>
                            denotes (drop 2 (flight sb)) k)) df"
proof -
  have "cast_Utf8 c = Some t \<longleftrightarrow> (\<exists>k. c = Some k \<and> denotes t k)" for c t
    by (cases c) (simp_all add: cast_Utf8_def int_to_str_denotes)
  then show ?thesis
    using assms by (simp add: filter_df_def Let_def pl_filter_def pl_and_True pl_eq_True)
qed

lemma denotes_100: "denotes ''100'' 100" "\<not> denotes ''100'' 101"
  by code_simp+

lemma present_delays_length: "length (present_delays g) \<le> length g"
  by (simp add: present_delays_def)

lemma series_mean_delays:
  assumes "length g < 2 ^ 53" and "sum_list (map abs (present_delays g)) < 2 ^ 53"
  shows "series_mean (map ArrDelayMinutes g) =
     (if present_delays g = [] then None
      else Some (f64 (of_int (sum_list (present_delays g)) / of_nat (length (present_delays g)))))"
proof -
  have eq: "drop_nulls (map ArrDelayMinutes g) = present_delays g"
    by (simp add: present_delays_def drop_nulls_present)
  from assms(1) present_delays_length [of g] have "length (present_delays g) < 2 ^ 53"
    by linarith
  then have "f64 (of_nat (length (present_delays g))) = of_nat (length (present_delays g))"
    by (rule f64_of_nat)
  with f64_sum_exact [OF assms(2)] show ?thesis
    by (simp add: series_mean_def Let_def eq)
qed

lemma py_round_tenth:
  "\<exists>k. k = round_half_even (x * 10) \<and> py_round x 1 = f64 (of_int k / 10) \<and>
       \<bar>of_int k / 10 - x\<bar> \<le> 1 / 20"
proof -
  have "\<bar>of_int (round_half_even (x * 10)) - x * 10\<bar> \<le> 1 / 2"
    by (rule round_half_even_near)
  then have "\<bar>of_int (round_half_even (x * 10)) / 10 - x\<bar> \<le> 1 / 20"
    by (simp add: abs_le_iff field_simps)
  then show ?thesis
    by (simp add: py_round_def)
qed

lemma abs_sum_filter:
  "sum_list (map abs (present_delays (filter P g))) \<le> sum_list (map abs (present_delays g))"
  by (induction g) (auto simp: present_delays_def)

lemma series_mean_on_time:
  assumes "g \<noteq> []" and "length g < 2 ^ 53"
    and "\<forall>r \<in> set g. OnTime r = Some 0 \<or> OnTime r = Some 1"
  shows "series_mean (map OnTime g) =
           Some (f64 (of_nat (length (filter (\<lambda>r. OnTime r = Some 1) g)) / of_nat (length g)))"
proof -
  let ?c = "length (filter (\<lambda>r. OnTime r = Some 1) g)"
  from on_time_column [OF assms(3)]
  have s: "sum_list (drop_nulls (map OnTime g)) = int ?c"
    and l: "length (drop_nulls (map OnTime g)) = length g"
    by simp_all
  from l assms(1) have ne: "drop_nulls (map OnTime g) \<noteq> []"
    by auto
  have "\<forall>v \<in> set (drop_nulls (map OnTime g)). 0 \<le> v"
    using assms(3) by (induction g) (auto split: option.splits)
  then have "sum_list (map abs (drop_nulls (map OnTime g))) = sum_list (drop_nulls (map OnTime g))"
    by (induction "drop_nulls (map OnTime g)") (simp_all add: map_idI)
  moreover have "int ?c < 2 ^ 53"
  proof -
    have "?c \<le> length g"
      by simp
    with assms(2) have "?c < 2 ^ 53"
      by linarith
    then have "int ?c < int (2 ^ 53)"
      by (simp only: of_nat_less_iff)
    then show ?thesis
      by simp
  qed
  ultimately have "sum_list (map abs (drop_nulls (map OnTime g))) < 2 ^ 53"
    using s by simp
  from f64_sum_exact [OF this] s have fs: "f64_sum (drop_nulls (map OnTime g)) = of_nat ?c"
    by simp
  from f64_of_nat [OF assms(2)] show ?thesis
    using ne by (simp add: series_mean_def Let_def fs l)
qed

lemma pl_round_percent:
  assumes "0 \<le> q" and "q \<le> 1"
  shows "\<exists>k. k = round_ties rm (f64 (f64 (f64 q * 100) * 10)) \<and>
             pl_round rm (f64 (f64 q * 100)) 1 = f64 (of_int k / 10) \<and>
             \<bar>of_int k / 10 - 100 * q\<bar> \<le> 1 / 20 + 1 / 2 ^ 44"
proof -
  define r where "r = f64 q"
  define y where "y = f64 (r * 100)"
  define z where "z = f64 (y * 10)"
  define k where "k = round_ties rm z"
  define eps :: rat where "eps = 1 / 2 ^ 53"
  have eps: "0 \<le> eps" "eps \<le> 1 / 1000" "501 * eps \<le> 1 / 2 ^ 44"
    by (simp_all add: eps_def)
  have err: "\<bar>f64 x - x\<bar> \<le> B * eps" if "\<bar>x\<bar> \<le> B" for x B
    using f64_error_bound [OF that] by (simp add: eps_def)
  from assms have "\<bar>q\<bar> \<le> 1"
    by simp
  from err [OF this] have r: "\<bar>r - q\<bar> \<le> 1 * eps"
    by (simp add: r_def)
  with assms eps have "\<bar>r * 100\<bar> \<le> 200"
    by linarith
  from err [OF this] have y: "\<bar>y - r * 100\<bar> \<le> 200 * eps"
    by (simp add: y_def)
  with r assms eps have "\<bar>y * 10\<bar> \<le> 2010"
    by linarith
  from err [OF this] have z: "\<bar>z - y * 10\<bar> \<le> 2010 * eps"
    by (simp add: z_def)
  have kz: "\<bar>of_int k - z\<bar> \<le> 1 / 2"
    unfolding k_def by (rule round_ties_near)
  from r y z kz have "\<bar>of_int k - 1000 * q\<bar> \<le> 1 / 2 + 5010 * eps"
    by linarith
  with eps(3) have "\<bar>of_int k / 10 - 100 * q\<bar> \<le> 1 / 20 + 1 / 2 ^ 44"
    by linarith
  moreover have "pl_round rm (f64 (f64 q * 100)) 1 = f64 (of_int k / 10)"
    by (simp add: pl_round_def k_def z_def y_def r_def)
  ultimately show ?thesis
    unfolding k_def z_def y_def r_def by blast
qed

lemma hour_stats_bucket:
  assumes "load_data df = Inr tbl" and "fdf = filter_df sb tbl"
    and "length fdf < 2 ^ 53" and "sum_list (map abs (present_delays fdf)) < 2 ^ 53"
    and "e \<in> set (hour_stats rm fdf)"
  shows "\<exists>g. g = filter (\<lambda>r. DepHour r = h_DepHour e) fdf \<and> g \<noteq> [] \<and>
             flights_n e = length g \<and>
             avg_arr_delay e =
               (if present_delays g = [] then None
                else Some (f64 (of_int (sum_list (present_delays g)) /
                                of_nat (length (present_delays g))))) \<and>
             ((\<forall>r \<in> set g. ArrDelayMinutes r \<noteq> None) \<longrightarrow>
                (\<exists>c k. c = length (filter (\<lambda>r. OnTime r = Some 1) g) \<and>
                       k = round_ties rm
                             (f64 (f64 (f64 (of_nat c / of_nat (length g)) * 100) * 10)) \<and>
                       h_on_time_pct e = Some (f64 (of_int k / 10)) \<and>
                       \<bar>of_int k / 10 - 100 * of_nat c / of_nat (length g) :: rat\<bar>
                         \<le> 1 / 20 + 1 / 2 ^ 44))"
proof -
  define g where "g = filter (\<lambda>r. DepHour r = h_DepHour e) fdf"
  from hour_stats_row [OF assms(5)]
  have key: "h_DepHour e \<in> set (map DepHour fdf)" and e: "e = agg rm (h_DepHour e) g"
    by (simp_all add: g_def group_rows_def)
  from key have ne: "g \<noteq> []"
    by (auto simp: g_def filter_empty_conv)
  have len: "length g < 2 ^ 53"
  proof -
    have "length g \<le> length fdf"
      by (simp add: g_def)
    with assms(3) show ?thesis
      by linarith
  qed
  have sm: "sum_list (map abs (present_delays g)) < 2 ^ 53"
    using abs_sum_filter [of "\<lambda>r. DepHour r = h_DepHour e" fdf] assms(4)
    unfolding g_def by linarith
  have n: "flights_n e = length g"
    by (subst e) (simp add: agg_def Let_def)
  have a: "avg_arr_delay e =
             (if present_delays g = [] then None
              else Some (f64 (of_int (sum_list (present_delays g)) /
                              of_nat (length (present_delays g)))))"
    by (subst e) (simp add: agg_def Let_def series_mean_delays [OF len sm])
  have p: "\<exists>c k. c = length (filter (\<lambda>r. OnTime r = Some 1) g) \<and>
              k = round_ties rm (f64 (f64 (f64 (of_nat c / of_nat (length g)) * 100) * 10)) \<and>
              h_on_time_pct e = Some (f64 (of_int k / 10)) \<and>
              \<bar>of_int k / 10 - 100 * of_nat c / of_nat (length g) :: rat\<bar> \<le> 1 / 20 + 1 / 2 ^ 44"
    if present: "\<forall>r \<in> set g. ArrDelayMinutes r \<noteq> None"
  proof -
    have "OnTime r = Some 0 \<or> OnTime r = Some 1" if "r \<in> set g" for r
    proof -
      from that have "r \<in> set tbl"
        using filter_df_subset [of sb tbl] by (auto simp: g_def assms(2))
      with load_data_Inr [OF assms(1)] obtain r0 where "r = with_columns r0"
        by auto
      with present that show ?thesis
        by (auto simp: with_columns_OnTime_cases with_columns_raw split: option.splits)
    qed
    then have bits: "\<forall>r \<in> set g. OnTime r = Some 0 \<or> OnTime r = Some 1"
      by blast
    define c where "c = length (filter (\<lambda>r. OnTime r = Some 1) g)"
    define q :: rat where "q = of_nat c / of_nat (length g)"
    have "c \<le> length g"
      by (simp add: c_def)
    with ne have q: "0 \<le> q" "q \<le> 1"
      by (simp_all add: q_def)
    from series_mean_on_time [OF ne len bits]
    have h: "h_on_time_pct e = Some (pl_round rm (f64 (f64 q * 100)) 1)"
      by (subst e) (simp add: agg_def Let_def q_def c_def)
    from pl_round_percent [OF q, of rm] obtain k
      where k: "k = round_ties rm (f64 (f64 (f64 q * 100) * 10))"
        and r: "pl_round rm (f64 (f64 q * 100)) 1 = f64 (of_int k / 10)"
        and b: "\<bar>of_int k / 10 - 100 * q\<bar> \<le> 1 / 20 + 1 / 2 ^ 44"
      by blast
    from b have b': "\<bar>of_int k / 10 - 100 * of_nat c / of_nat (length g) :: rat\<bar> \<le> 1 / 20 + 1 / 2 ^ 44"
      by (simp add: q_def)
    from h r have h': "h_on_time_pct e = Some (f64 (of_int k / 10))"
      by simp
    from k have k': "k = round_ties rm (f64 (f64 (f64 (of_nat c / of_nat (length g)) * 100) * 10))"
      by (simp only: q_def)
    from c_def k' h' b' show ?thesis
      by blast
  qed
  from ne n a p show ?thesis
    unfolding g_def [symmetric] by blast
qed

lemma thirds_loaded: "load_data thirds_table = Inr (map with_columns thirds_table)"
  by (simp add: load_data_def thirds_table_def sample_row_def)

lemma sample_loaded: "load_data sample_table = Inr (map with_columns sample_table)"
  by (simp add: load_data_def sample_table_def sample_row_def)

section \<open>The loader\<close>

subsection \<open>C1: the on-time column\<close>

text \<open>
  A row whose arrival delay is missing gets a missing \<^verbatim>\<open>OnTime\<close>, not a 0: the
  comparison of a null with 15 is null and the cast keeps it. In the sample it is the third
  row.
\<close>

theorem on_time_missing_delay_counterexample:
  "load_data sample_table = Inr (map with_columns sample_table) \<and>
   map ArrDelayMinutes (map with_columns sample_table) = [Some 5, Some 20, None, Some 0] \<and>
   map OnTime (map with_columns sample_table) = [Some 1, Some 0, None, Some 1] \<and>
   OnTime (map with_columns sample_table ! 2) \<noteq> Some 0"
  using sample_loaded
  by (simp add: sample_table_def sample_row_def with_columns_OnTime pl_le_def
      cast_Int8_def with_columns_raw)

text \<open>
  C1 (as amended): in every row of a table that \<^verbatim>\<open>load_data\<close> returns, \<^verbatim>\<open>OnTime\<close> is 1
  exactly when the arrival delay is present and at most 15 minutes, 0 exactly when it is
  present and above 15 minutes, and missing exactly when the arrival delay is missing.
\<close>

theorem on_time_classification:
  assumes "load_data df = Inr tbl" and "r \<in> set tbl"
  shows "(OnTime r = Some 1 \<longleftrightarrow> (\<exists>d. ArrDelayMinutes r = Some d \<and> d \<le> 15)) \<and>
         (OnTime r = Some 0 \<longleftrightarrow> (\<exists>d. ArrDelayMinutes r = Some d \<and> 15 < d)) \<and>
         (OnTime r = None \<longleftrightarrow> ArrDelayMinutes r = None)"
proof -
  from load_data_Inr [OF assms(1)] assms(2) obtain r0 where r: "r = with_columns r0"
    by auto
  show ?thesis
    unfolding r with_columns_OnTime with_columns_raw
    by (cases "ArrDelayMinutes r0") (auto simp: pl_le_def cast_Int8_def)
qed

text \<open>Delays of 10 and 16 minutes and a missing delay.\<close>

theorem on_time_classification_witness:
  "load_data [sample_row None ''AA'' 1 (Some 10) False,
              sample_row None ''AA'' 1 (Some 16) False,
              sample_row None ''AA'' 1 None False] =
     Inr (map with_columns [sample_row None ''AA'' 1 (Some 10) False,
                            sample_row None ''AA'' 1 (Some 16) False,
                            sample_row None ''AA'' 1 None False]) \<and>
   map OnTime (map with_columns [sample_row None ''AA'' 1 (Some 10) False,
                                 sample_row None ''AA'' 1 (Some 16) False,
                                 sample_row None ''AA'' 1 None False]) = [Some 1, Some 0, None]"
proof -
  let ?df = "[sample_row None ''AA'' 1 (Some 10) False,
              sample_row None ''AA'' 1 (Some 16) False,
              sample_row None ''AA'' 1 None False]"
  have l: "load_data ?df = Inr (map with_columns ?df)"
    by (simp add: load_data_def sample_row_def)
  have a: "with_columns (sample_row None ''AA'' 1 (Some 10) False) \<in> set (map with_columns ?df)"
    and b: "with_columns (sample_row None ''AA'' 1 (Some 16) False) \<in> set (map with_columns ?df)"
    and c: "with_columns (sample_row None ''AA'' 1 None False) \<in> set (map with_columns ?df)"
    by simp_all
  show ?thesis
    using on_time_classification [OF l a] on_time_classification [OF l b]
      on_time_classification [OF l c] l
    by (simp add: with_columns_raw sample_row_def)
qed

subsection \<open>C5: minutes since midnight\<close>

text \<open>The clock value 1515 is minute 915 of the day (15 hours and 15 minutes), not 975.\<close>

theorem minutes_1515_counterexample:
  "CRSDepTime (sample_row (Some 1515) ''AA'' 101 (Some 5) False) = Some 1515 \<and>
   CRSDepMin (with_columns (sample_row (Some 1515) ''AA'' 101 (Some 5) False)) = Some 915 \<and>
   CRSDepMin (with_columns (sample_row (Some 1515) ''AA'' 101 (Some 5) False)) \<noteq> Some 975"
  by (simp add: sample_row_def with_columns_minutes map_elements_def hhmm_to_minutes_def)

text \<open>
  C5 (as amended): in every row each of the four minute columns is
  \<open>(clock div 100) * 60 + clock mod 100\<close> of its clock value when that is present, so that
  1515 gives 915 and 800 gives 480, and is missing, never 0, when the clock value is missing.
\<close>

theorem minutes_since_midnight:
  "CRSDepMin (with_columns r) = spec_minutes (CRSDepTime r) \<and>
   DepMin (with_columns r) = spec_minutes (DepTime r) \<and>
   CRSArrMin (with_columns r) = spec_minutes (CRSArrTime r) \<and>
   ArrMin (with_columns r) = spec_minutes (ArrTime r) \<and>
   spec_minutes (Some 1515) = Some 915 \<and> spec_minutes (Some 800) = Some 480 \<and>
   spec_minutes None = None"
  by (simp add: with_columns_minutes map_elements_def hhmm_to_minutes_def spec_minutes_def
      split: option.splits)

theorem minutes_since_midnight_witness:
  "map (\<lambda>f. f (with_columns (sample_row (Some 1515) ''AA'' 101 (Some 5) False)))
     [CRSDepMin, DepMin, CRSArrMin, ArrMin] = [Some 915, Some 915, Some 480, None]"
  using minutes_since_midnight [of "sample_row (Some 1515) ''AA'' 101 (Some 5) False"]
  by (simp add: sample_row_def spec_minutes_def)

subsection \<open>C8: the departure hour\<close>

text \<open>
  Nothing checks that a clock value is a time of the day: the value 2400, which the
  loader accepts as any other integer, falls in hour 24.
\<close>

theorem dep_hour_2400_counterexample:
  "CRSDepTime (sample_row (Some 2400) ''AA'' 101 (Some 5) False) = Some 2400 \<and>
   DepHour (with_columns (sample_row (Some 2400) ''AA'' 101 (Some 5) False)) = Some 24"
  by (simp add: sample_row_def with_columns_DepHour with_columns_minutes map_elements_def
      hhmm_to_minutes_def pl_floordiv_def)

text \<open>
  C8 (as amended): in every row whose scheduled departure clock value \<open>s\<close> is present,
  \<^verbatim>\<open>DepHour\<close> is \<^verbatim>\<open>CRSDepMin\<close> div 60, and it lies between 0 and 23 whenever \<open>s\<close> lies
  between 0 and 2359.
\<close>

theorem dep_hour_bucket:
  assumes "CRSDepTime r = Some s"
  shows "\<exists>m. CRSDepMin (with_columns r) = Some m \<and>
             DepHour (with_columns r) = Some (m div 60) \<and>
             (0 \<le> s \<and> s \<le> 2359 \<longrightarrow> 0 \<le> m div 60 \<and> m div 60 \<le> 23)"
  using assms hhmm_hour_range [of s]
  by (simp add: with_columns_DepHour with_columns_minutes map_elements_def pl_floordiv_def)

theorem dep_hour_bucket_witness:
  "CRSDepMin (with_columns (sample_row (Some 2359) ''AA'' 101 (Some 5) False)) = Some 1439 \<and>
   DepHour (with_columns (sample_row (Some 2359) ''AA'' 101 (Some 5) False)) = Some 23"
proof -
  have h: "CRSDepTime (sample_row (Some 2359) ''AA'' 101 (Some 5) False) = Some 2359"
    by (simp add: sample_row_def)
  have m: "CRSDepMin (with_columns (sample_row (Some 2359) ''AA'' 101 (Some 5) False)) = Some 1439"
    by (simp add: sample_row_def with_columns_minutes map_elements_def hhmm_to_minutes_def)
  show ?thesis
    using dep_hour_bucket [OF h] by (simp add: m)
qed

subsection \<open>C9: one row out for each row in\<close>




section \<open>The query engine\<close>

subsection \<open>C2: a mode that is none of the four\<close>

text \<open>With a mode string that no branch tests, the table comes back as it went in.\<close>

theorem unrecognized_mode_counterexample:
  "mode (sample_sidebar ''bogus'') \<notin> {''airport'', ''route'', ''airline_at_airport'', ''flight''} \<and>
   map with_columns sample_table \<noteq> [] \<and>
   filter_df (sample_sidebar ''bogus'') (map with_columns sample_table) =
     map with_columns sample_table"
  by (simp add: sample_sidebar_def sample_table_def filter_df_def)

text \<open>
  C2 (as amended): for every table and every selection, a mode that is none of the four
  recognised ones makes \<^verbatim>\<open>filter_df\<close> return the table unfiltered; no error is raised.
\<close>

theorem unrecognized_mode_unfiltered:
  assumes "mode sb \<notin> {''airport'', ''route'', ''airline_at_airport'', ''flight''}"
  shows "filter_df sb df = df"
  using assms by (simp add: filter_df_def)

theorem unrecognized_mode_unfiltered_witness:
  "filter_df (sample_sidebar ''flights'') (map with_columns sample_table) =
     map with_columns sample_table"
  using unrecognized_mode_unfiltered [of "sample_sidebar ''flights''" "map with_columns sample_table"]
  by (simp add: sample_sidebar_def)

subsection \<open>C3: a selection without rows\<close>

text \<open>
  C3: when the filter keeps no row, \<^verbatim>\<open>compute_metrics\<close> returns the count 0 with the three
  figures null, and the hourly aggregation of the subset has no row. (The script evaluates
  the aggregation only under \<^verbatim>\<open>fdf.height > 0\<close> and shows a notice otherwise.)
\<close>

theorem empty_selection_metrics:
  assumes "filter_df sb df = []"
  shows "compute_metrics (filter_df sb df) =
           \<lparr>m_n = 0, m_on_time_pct = None, m_avg_delay = None, m_cancel_rate = None\<rparr> \<and>
         hour_stats rm (filter_df sb df) = []"
  using assms by (simp add: compute_metrics_def hour_stats_Nil)

theorem empty_selection_metrics_witness:
  "compute_metrics (filter_df (sample_sidebar ''flight'') (map with_columns sample_table)) =
     \<lparr>m_n = 0, m_on_time_pct = None, m_avg_delay = None, m_cancel_rate = None\<rparr> \<and>
   hour_stats half_to_even
     (filter_df (sample_sidebar ''flight'') (map with_columns sample_table)) = []"
  using empty_selection_metrics [OF sample_AA100_empty, of half_to_even] by simp

subsection \<open>C4: the average delay\<close>

text \<open>
  The mean is a \<^verbatim>\<open>Float64\<close>: of the single delay \<open>2 ^ 53 + 1\<close>, which is no
  \<^verbatim>\<open>Float64\<close>, the average that comes back is \<open>2 ^ 53\<close>, one minute less than the mean.
\<close>

theorem avg_delay_float_counterexample:
  "load_data huge_table = Inr (map with_columns huge_table) \<and>
   map with_columns huge_table \<noteq> [] \<and>
   present_delays (map with_columns huge_table) = [9007199254740993] \<and>
   of_int (sum_list (present_delays (map with_columns huge_table))) /
     of_nat (length (present_delays (map with_columns huge_table))) = (9007199254740993 :: rat) \<and>
   m_avg_delay (compute_metrics (map with_columns huge_table)) = Some 9007199254740992"
  by code_simp

text \<open>
  C4 (as amended): on a subset with at least one and fewer than \<open>2 ^ 53\<close> rows, whose
  present arrival delays add up, in absolute value, to less than \<open>2 ^ 53\<close>,
  \<^verbatim>\<open>avg_delay\<close> is null when no arrival delay is present. Otherwise let \<open>m\<close> be the sum of
  the present delays divided by their number (the rows without a delay count neither in
  the sum nor in the number): \<^verbatim>\<open>avg_delay\<close> is the \<^verbatim>\<open>Float64\<close> nearest to \<open>k / 10\<close>, where
  \<open>k / 10\<close> is the multiple of one tenth nearest to the \<^verbatim>\<open>Float64\<close> nearest to \<open>m\<close> (ties
  to the even \<open>k\<close>), so that \<open>k / 10\<close> is within \<open>1 / 20 + \<bar>m\<bar> / 2 ^ 53\<close> of \<open>m\<close>.
\<close>

theorem avg_delay_mean_of_present:
  assumes "fdf \<noteq> []" and "length fdf < 2 ^ 53"
    and "sum_list (map abs (present_delays fdf)) < 2 ^ 53"
  shows "(present_delays fdf = [] \<longrightarrow> m_avg_delay (compute_metrics fdf) = None) \<and>
         (present_delays fdf \<noteq> [] \<longrightarrow>
            (\<exists>m k. m = of_int (sum_list (present_delays fdf)) /
                        of_nat (length (present_delays fdf)) \<and>
                   k = round_half_even (f64 m * 10) \<and>
                   m_avg_delay (compute_metrics fdf) = Some (f64 (of_int k / 10)) \<and>
                   \<bar>of_int k / 10 - m\<bar> \<le> 1 / 20 + \<bar>m\<bar> / 2 ^ 53))"
proof -
  define m :: rat where
    "m = of_int (sum_list (present_delays fdf)) / of_nat (length (present_delays fdf))"
  have avg: "m_avg_delay (compute_metrics fdf) =
      (if present_delays fdf = [] then None else Some (py_round (f64 m) 1))"
    using assms(1) by (simp add: compute_metrics_def Let_def series_mean_delays [OF assms(2,3)] m_def)
  obtain k where k: "k = round_half_even (f64 m * 10)"
    and r: "py_round (f64 m) 1 = f64 (of_int k / 10)"
    and near: "\<bar>of_int k / 10 - f64 m\<bar> \<le> 1 / 20"
    using py_round_tenth [of "f64 m"] by blast
  from near f64_error [of m] have "\<bar>of_int k / 10 - m\<bar> \<le> 1 / 20 + \<bar>m\<bar> / 2 ^ 53"
    by linarith
  with avg k r show ?thesis
    unfolding m_def [symmetric] by auto
qed

text \<open>The delays 5, 20, missing, 0 average to 25/3, shown as 8.3.\<close>

theorem avg_delay_mean_of_present_witness:
  "map with_columns sample_table \<noteq> [] \<and>
   present_delays (map with_columns sample_table) = [5, 20, 0] \<and>
   round_half_even (f64 (25 / 3) * 10) = 83 \<and>
   m_avg_delay (compute_metrics (map with_columns sample_table)) = Some (f64 (83 / 10)) \<and>
   \<bar>83 / 10 - 25 / 3 :: rat\<bar> \<le> 1 / 20 + \<bar>25 / 3\<bar> / 2 ^ 53"
proof -
  have ne: "map with_columns sample_table \<noteq> []"
    by (simp add: sample_table_def)
  have len: "length (map with_columns sample_table) < 2 ^ 53"
    by (simp add: sample_table_def)
  have pd: "present_delays (map with_columns sample_table) = [5, 20, 0]"
    by (simp add: present_delays_def sample_defs with_columns_raw)
  have bound: "sum_list (map abs (present_delays (map with_columns sample_table))) < 2 ^ 53"
    by (simp add: pd)
  have k: "round_half_even (f64 (25 / 3) * 10) = 83"
    by code_simp
  have "present_delays (map with_columns sample_table) \<noteq> []"
    by (simp add: pd)
  with avg_delay_mean_of_present [OF ne len bound]
  obtain m j where m: "m = of_int (sum_list (present_delays (map with_columns sample_table))) /
                        of_nat (length (present_delays (map with_columns sample_table)))"
    and j: "j = round_half_even (f64 m * 10)"
    and a: "m_avg_delay (compute_metrics (map with_columns sample_table)) =
              Some (f64 (of_int j / 10))"
    and e: "\<bar>of_int j / 10 - m\<bar> \<le> 1 / 20 + \<bar>m\<bar> / 2 ^ 53"
    by blast
  from m have m': "m = 25 / 3"
    by (simp add: pd)
  from j k have j': "j = 83"
    by (simp add: m')
  from a e ne pd k show ?thesis
    unfolding j' m' by simp
qed

text \<open>
  The \<^verbatim>\<open>Float64\<close> nearest to 0.05 lies above it, so the mean 0.05 is shown as 0.1; and of
  80 flights of which 23 are on time, the percentage \<open>0.2875 * 100\<close> comes out just below
  28.75 and is shown as 28.7 in either rounding mode.
\<close>

lemma avg_delay_twentieth:
  "m_avg_delay (compute_metrics (map with_columns twentieth_table)) = Some (f64 (1 / 10))"
  by code_simp

lemma pl_round_23_of_80:
  "pl_round half_to_even (f64 (f64 (23 / 80) * 100)) 1 = f64 (287 / 10)"
  "pl_round half_away_from_zero (f64 (f64 (23 / 80) * 100)) 1 = f64 (287 / 10)"
  by code_simp+

subsection \<open>C7: selecting a flight number\<close>

text \<open>
  C7: in the mode \<^verbatim>\<open>flight\<close> the first two characters of the selection are the carrier
  and the rest is the flight number: \<^verbatim>\<open>filter_df\<close> keeps exactly the rows whose airline is
  the carrier and whose flight number is the integer that the rest denotes as a decimal
  numeral. When the rest denotes the flight number of no row, the count of the metrics
  is 0.
\<close>

theorem flight_number_mode:
  assumes "mode sb = ''flight''"
  shows "filter_df sb df =
           filter (\<lambda>r. Operating_Airline r = Some (take 2 (flight sb)) \<and>
                       (\<exists>k. Flight_Number_Operating_Airline r = Some k \<and>
                            denotes (drop 2 (flight sb)) k)) df \<and>
         ((\<forall>r \<in> set df. \<forall>k. Flight_Number_Operating_Airline r = Some k \<longrightarrow>
                               \<not> denotes (drop 2 (flight sb)) k) \<longrightarrow>
            m_n (compute_metrics (filter_df sb df)) = 0)"
  unfolding flight_filter [OF assms] compute_metrics_n
  by (auto simp: filter_empty_conv)

text \<open>The selection AA100 on a table that holds flight AA101 only.\<close>

theorem flight_number_mode_witness:
  "take 2 (flight (sample_sidebar ''flight'')) = ''AA'' \<and>
   drop 2 (flight (sample_sidebar ''flight'')) = ''100'' \<and>
   map (\<lambda>r. (Operating_Airline r, Flight_Number_Operating_Airline r))
     (map with_columns sample_table) =
     [(Some ''AA'', Some 101), (Some ''AA'', Some 101),
      (Some ''AA'', Some 101), (Some ''AA'', Some 101)] \<and>
   denotes ''100'' 100 \<and> \<not> denotes ''100'' 101 \<and>
   filter_df (sample_sidebar ''flight'') (map with_columns sample_table) = [] \<and>
   m_n (compute_metrics (filter_df (sample_sidebar ''flight'') (map with_columns sample_table))) = 0"
proof -
  have m: "mode (sample_sidebar ''flight'') = ''flight''"
    by (simp add: sample_sidebar_def)
  have rows: "map (\<lambda>r. (Operating_Airline r, Flight_Number_Operating_Airline r))
     (map with_columns sample_table) =
     [(Some ''AA'', Some 101), (Some ''AA'', Some 101),
      (Some ''AA'', Some 101), (Some ''AA'', Some 101)]"
    by (simp add: sample_table_def sample_row_def with_columns_raw)
  have none: "\<forall>r \<in> set (map with_columns sample_table). \<forall>k.
      Flight_Number_Operating_Airline r = Some k \<longrightarrow>
      \<not> denotes (drop 2 (flight (sample_sidebar ''flight''))) k"
    by (simp add: sample_table_def sample_row_def with_columns_raw denotes_100
        sample_sidebar_def)
  show ?thesis
    using flight_number_mode [OF m, of "map with_columns sample_table"] none rows denotes_100
    by (simp add: sample_sidebar_def filter_empty_conv compute_metrics_n)
qed

subsection \<open>C6: the hourly rows\<close>

text \<open>
  Four flights of one hour with delays 0, 0, 1 and a missing one. The average delay of the
  hourly row is the mean of the three present delays as it comes, the \<^verbatim>\<open>Float64\<close> nearest
  to one third, without rounding. The on-time percentage is 100 in either rounding mode:
  \<^verbatim>\<open>pl.mean("OnTime")\<close> averages the three present cells, where 100 times the number of
  on-time rows over the number of rows is 75 (as \<^verbatim>\<open>compute_metrics\<close> computes it, dividing
  by the height).
\<close>

theorem hourly_row_counterexample:
  "load_data mixed_table = Inr (map with_columns mixed_table) \<and>
   hour_stats half_to_even (filter_df (sample_sidebar ''airport'') (map with_columns mixed_table)) =
     [\<lparr>h_DepHour = Some 8, flights_n = 4, on_time_rate = Some 1,
       avg_arr_delay = Some (f64 (1 / 3)), h_on_time_pct = Some 100\<rparr>] \<and>
   hour_stats half_away_from_zero
     (filter_df (sample_sidebar ''airport'') (map with_columns mixed_table)) =
     [\<lparr>h_DepHour = Some 8, flights_n = 4, on_time_rate = Some 1,
       avg_arr_delay = Some (f64 (1 / 3)), h_on_time_pct = Some 100\<rparr>] \<and>
   map OnTime (filter_df (sample_sidebar ''airport'') (map with_columns mixed_table)) =
     [Some 1, Some 1, Some 1, None] \<and>
   f64 (1 / 3) = 6004799503160661 / 18014398509481984 \<and>
   f64 (1 / 3) \<noteq> f64 (3 / 10) \<and>
   m_on_time_pct
     (compute_metrics (filter_df (sample_sidebar ''airport'') (map with_columns mixed_table))) =
     Some 75"
  by code_simp

text \<open>
  C6 (as amended): on a filtered subset of a loaded table, with fewer than \<open>2 ^ 53\<close> rows
  and present arrival delays that add up, in absolute value, to less than \<open>2 ^ 53\<close>, the
  hourly rows have pairwise different departure hours, which are the departure hours that
  occur in the subset. Every hourly row holds the number of rows of its hour, the mean of
  their present arrival delays as a \<^verbatim>\<open>Float64\<close> (not rounded; null when none is present) and,
  when every row of the hour has an arrival delay, the on-time percentage: the
  \<^verbatim>\<open>Float64\<close> nearest to \<open>k / 10\<close>, where \<open>k\<close> is the integer that the floating-point
  computation rounds to, and \<open>k / 10\<close> is within \<open>1 / 20 + 1 / 2 ^ 44\<close> of
  \<open>100 * (number of on-time rows) / (number of rows)\<close>.
\<close>

theorem hour_stats_per_bucket:
  assumes "load_data df = Inr tbl" and "fdf = filter_df sb tbl"
    and "length fdf < 2 ^ 53" and "sum_list (map abs (present_delays fdf)) < 2 ^ 53"
  shows "distinct (map h_DepHour (hour_stats rm fdf)) \<and>
         set (map h_DepHour (hour_stats rm fdf)) = set (map DepHour fdf) \<and>
         (\<forall>e \<in> set (hour_stats rm fdf).
            \<exists>g. g = filter (\<lambda>r. DepHour r = h_DepHour e) fdf \<and> g \<noteq> [] \<and>
                flights_n e = length g \<and>
                avg_arr_delay e =
                  (if present_delays g = [] then None
                   else Some (f64 (of_int (sum_list (present_delays g)) /
                                   of_nat (length (present_delays g))))) \<and>
                ((\<forall>r \<in> set g. ArrDelayMinutes r \<noteq> None) \<longrightarrow>
                   (\<exists>c k. c = length (filter (\<lambda>r. OnTime r = Some 1) g) \<and>
                          k = round_ties rm
                                (f64 (f64 (f64 (of_nat c / of_nat (length g)) * 100) * 10)) \<and>
                          h_on_time_pct e = Some (f64 (of_int k / 10)) \<and>
                          \<bar>of_int k / 10 - 100 * of_nat c / of_nat (length g) :: rat\<bar>
                            \<le> 1 / 20 + 1 / 2 ^ 44)))"
proof (intro conjI ballI)
  show "distinct (map h_DepHour (hour_stats rm fdf))"
    by (simp only: hour_stats_keys distinct_sort distinct_remdups)
next
  show "set (map h_DepHour (hour_stats rm fdf)) = set (map DepHour fdf)"
    by (simp only: hour_stats_keys set_sort set_remdups)
next
  fix e
  assume "e \<in> set (hour_stats rm fdf)"
  from hour_stats_bucket [OF assms this]
  show "\<exists>g. g = filter (\<lambda>r. DepHour r = h_DepHour e) fdf \<and> g \<noteq> [] \<and>
                flights_n e = length g \<and>
                avg_arr_delay e =
                  (if present_delays g = [] then None
                   else Some (f64 (of_int (sum_list (present_delays g)) /
                                   of_nat (length (present_delays g))))) \<and>
                ((\<forall>r \<in> set g. ArrDelayMinutes r \<noteq> None) \<longrightarrow>
                   (\<exists>c k. c = length (filter (\<lambda>r. OnTime r = Some 1) g) \<and>
                          k = round_ties rm
                                (f64 (f64 (f64 (of_nat c / of_nat (length g)) * 100) * 10)) \<and>
                          h_on_time_pct e = Some (f64 (of_int k / 10)) \<and>
                          \<bar>of_int k / 10 - 100 * of_nat c / of_nat (length g) :: rat\<bar>
                            \<le> 1 / 20 + 1 / 2 ^ 44))" .
qed

text \<open>Three flights of the 8 o'clock hour, all on time, with delays 0, 0 and 1.\<close>

theorem hour_stats_per_bucket_witness:
  "load_data thirds_table = Inr (map with_columns thirds_table) \<and>
   hour_stats half_to_even (filter_df (sample_sidebar ''airport'') (map with_columns thirds_table)) =
     [\<lparr>h_DepHour = Some 8, flights_n = 3, on_time_rate = Some 1,
       avg_arr_delay = Some (f64 (1 / 3)), h_on_time_pct = Some 100\<rparr>] \<and>
   map (\<lambda>r. (DepHour r, ArrDelayMinutes r, OnTime r))
     (filter_df (sample_sidebar ''airport'') (map with_columns thirds_table)) =
     [(Some 8, Some 0, Some 1), (Some 8, Some 0, Some 1), (Some 8, Some 1, Some 1)] \<and>
   round_ties half_to_even (f64 (f64 (f64 (3 / 3) * 100) * 10)) = 1000 \<and>
   f64 (1000 / 10) = 100"
proof -
  let ?fdf = "filter_df (sample_sidebar ''airport'') (map with_columns thirds_table)"
  let ?e = "\<lparr>h_DepHour = Some 8, flights_n = 3, on_time_rate = Some 1,
             avg_arr_delay = Some (f64 (1 / 3)), h_on_time_pct = Some (100::rat)\<rparr>"
  have hs: "hour_stats half_to_even ?fdf = [?e]"
    by code_simp
  have rows: "map (\<lambda>r. (DepHour r, ArrDelayMinutes r, OnTime r)) ?fdf =
      [(Some 8, Some 0, Some 1), (Some 8, Some 0, Some 1), (Some 8, Some 1, Some 1)]"
    by code_simp
  have "length ?fdf = 3"
    by code_simp
  then have len: "length ?fdf < 2 ^ 53"
    by simp
  have "present_delays ?fdf = [0, 0, 1]"
    by code_simp
  then have sm: "sum_list (map abs (present_delays ?fdf)) < 2 ^ 53"
    by simp
  have k: "round_ties half_to_even (f64 (f64 (f64 (3 / 3) * 100) * 10)) = 1000"
    by code_simp
  have p: "f64 (1000 / 10) = 100"
    by code_simp
  from hour_stats_per_bucket [OF thirds_loaded refl len sm, of half_to_even]
    thirds_loaded hs rows k p
  show ?thesis
    by simp
qed

subsection \<open>C10: the order of the hourly rows\<close>

text \<open>
  C10: the departure hours of the hourly rows increase strictly from each row to the next
  (a null hour, if any, coming first), so no hour occurs twice.
\<close>

theorem hour_stats_strictly_ascending:
  "sorted_wrt (<) (map h_DepHour (hour_stats rm fdf)) \<and>
   distinct (map h_DepHour (hour_stats rm fdf))"
  by (simp add: hour_stats_keys strict_sorted_iff)

theorem hour_stats_strictly_ascending_witness:
  "map DepHour (map with_columns sample_table) = [Some 15, Some 8, Some 15, Some 8] \<and>
   map h_DepHour (hour_stats half_to_even (map with_columns sample_table)) = [Some 8, Some 15] \<and>
   sorted_wrt (<) [Some 8, Some (15::int)]"
proof -
  have d: "map DepHour (map with_columns sample_table) = [Some 15, Some 8, Some 15, Some 8]"
    by code_simp
  have k: "map h_DepHour (hour_stats half_to_even (map with_columns sample_table)) =
      [Some 8, Some 15]"
    unfolding hour_stats_keys by code_simp
  show ?thesis
    using hour_stats_strictly_ascending [of half_to_even "map with_columns sample_table"] d
    by (simp add: k)
qed

end
